theory Spec2Isabelle
  imports Complex_Main "HOL-Library.Sublist"
begin

section \<open>Strings, bytes and values\<close>

text \<open>
  A Python \<open>str\<close> is a sequence of Unicode code points, a \<open>bytes\<close> object a sequence of
  octets.  Both \<open>len\<close> functions count elements, so the two types are kept apart: a
  \<open>str\<close> is a list of code points (natural numbers), a \<open>bytes\<close> object wraps a list of
  octets.  \<open>ascii\<close> embeds a literal of the source into \<open>str\<close>.
\<close>

type_synonym pystr = "nat list"

definition ascii :: "string \<Rightarrow> pystr" where
  "ascii s = map of_char s"

text \<open>An opaque Python object (a parsed JSON value, a dict to be serialised).\<close>

typedecl pyobject

text \<open>
  A \<open>bytes\<close> object: its octets, each below 256.
\<close>

datatype bytes = Bytes (octets: "nat list")

text \<open>
  The exceptions the server code can raise.  \<open>HandlerException s\<close> is an exception \<open>e\<close>
  raised inside a handler, with \<open>s = str(e)\<close>.
\<close>

datatype error =
    ValueError | IndexError | TypeError | UnicodeDecodeError | UnicodeEncodeError
  | JSONDecodeError | HandlerException pystr

text \<open>
  \<open>sep = '\r\n'\<close>.
\<close>

definition sep :: pystr where
  "sep = [13, 10]"

text \<open>
  \<open>s.split(d)\<close> for a non-empty separator \<open>d\<close>: the pieces between the occurrences of
  \<open>d\<close>, found from left to right without overlap.  \<open>split_from d cur s\<close> scans \<open>s\<close> with
  \<open>cur\<close> the piece read so far.  (Python raises on an empty separator; the source only
  splits on constants.)
\<close>

fun split_from :: "pystr \<Rightarrow> pystr \<Rightarrow> pystr \<Rightarrow> pystr list" where
  "split_from d cur [] = [cur]"
| "split_from d cur (x # xs) =
     (if d \<noteq> [] \<and> prefix d (x # xs)
      then cur # split_from d [] (drop (length d) (x # xs))
      else split_from d (cur @ [x]) xs)"

definition str_split :: "pystr \<Rightarrow> pystr \<Rightarrow> pystr list" where
  "str_split s d = split_from d [] s"

text \<open>
  \<open>line.index(c)\<close> for a single character: the first position of \<open>c\<close>, \<open>None\<close> where
  Python raises \<open>ValueError\<close>.  \<open>contains sub s\<close> is \<open>sub in s\<close>.
\<close>

fun str_index :: "pystr \<Rightarrow> nat \<Rightarrow> nat option" where
  "str_index [] c = None"
| "str_index (x # xs) c = (if x = c then Some 0 else map_option Suc (str_index xs c))"

fun contains :: "pystr \<Rightarrow> pystr \<Rightarrow> bool" where
  "contains sub [] = (sub = [])"
| "contains sub (x # xs) = (prefix sub (x # xs) \<or> contains sub xs)"

text \<open>
  The decimal digits an f-string writes for an integer.
\<close>

fun str_nat :: "nat \<Rightarrow> pystr" where
  "str_nat n = (if n < 10 then [48 + n] else str_nat (n div 10) @ [48 + n mod 10])"

declare str_nat.simps [simp del]

definition str_int :: "int \<Rightarrow> pystr" where
  "str_int i = (if i < 0 then 45 # str_nat (nat (- i)) else str_nat (nat i))"

text \<open>
  \<open>str.encode()\<close>: UTF-8, strict.  A lone surrogate cannot be encoded and raises
  \<open>UnicodeEncodeError\<close>.
\<close>

fun encode_char :: "nat \<Rightarrow> nat list option" where
  "encode_char c =
     (if c < 0x80 then Some [c]
      else if c < 0x800 then Some [(0xC0 + c div 64), (0x80 + c mod 64)]
      else if c < 0x10000 then
        (if 0xD800 \<le> c \<and> c \<le> 0xDFFF then None
         else Some [(0xE0 + c div 4096), (0x80 + c div 64 mod 64),
                    (0x80 + c mod 64)])
      else if c < 0x110000 then
        Some [(0xF0 + c div 262144), (0x80 + c div 4096 mod 64),
              (0x80 + c div 64 mod 64), (0x80 + c mod 64)]
      else None)"

fun encode_octets :: "pystr \<Rightarrow> nat list option" where
  "encode_octets [] = Some []"
| "encode_octets (c # cs) =
     (case encode_char c of
        None \<Rightarrow> None
      | Some bs \<Rightarrow> map_option ((@) bs) (encode_octets cs))"

definition encode :: "pystr \<Rightarrow> error + bytes" where
  "encode s = (case encode_octets s of None \<Rightarrow> Inl UnicodeEncodeError | Some bs \<Rightarrow> Inr (Bytes bs))"

text \<open>
  \<open>bytes.decode()\<close>: UTF-8, strict: only well-formed sequences are accepted (no overlong
  forms, no surrogates, nothing above U+10FFFF).
\<close>

definition cont :: "nat \<Rightarrow> bool" where
  "cont b = (0x80 \<le> b \<and> b \<le> 0xBF)"

fun decode_octets :: "nat list \<Rightarrow> pystr option" where
  "decode_octets [] = Some []"
| "decode_octets (b # bs) =
     (if b < 0x80 then map_option ((#) b) (decode_octets bs)
      else if 0xC2 \<le> b \<and> b \<le> 0xDF then
        (case bs of
           c1 # r \<Rightarrow>
             if cont c1
             then map_option ((#) ((b - 0xC0) * 64 + (c1 - 0x80))) (decode_octets r)
             else None
         | _ \<Rightarrow> None)
      else if 0xE0 \<le> b \<and> b \<le> 0xEF then
        (case bs of
           c1 # c2 # r \<Rightarrow>
             if (if b = 0xE0 then 0xA0 else 0x80) \<le> c1 \<and> c1 \<le> (if b = 0xED then 0x9F else 0xBF)
                \<and> cont c2
             then map_option ((#) ((b - 0xE0) * 4096 + (c1 - 0x80) * 64 + (c2 - 0x80)))
                    (decode_octets r)
             else None
         | _ \<Rightarrow> None)
      else if 0xF0 \<le> b \<and> b \<le> 0xF4 then
        (case bs of
           c1 # c2 # c3 # r \<Rightarrow>
             if (if b = 0xF0 then 0x90 else 0x80) \<le> c1 \<and> c1 \<le> (if b = 0xF4 then 0x8F else 0xBF)
                \<and> cont c2 \<and> cont c3
             then map_option ((#) ((b - 0xF0) * 262144 + (c1 - 0x80) * 4096 + (c2 - 0x80) * 64
                                   + (c3 - 0x80)))
                    (decode_octets r)
             else None
         | _ \<Rightarrow> None)
      else None)"

definition decode :: "bytes \<Rightarrow> error + pystr" where
  "decode data =
     (case decode_octets (octets data) of None \<Rightarrow> Inl UnicodeDecodeError | Some s \<Rightarrow> Inr s)"

text \<open>
  \<open>data.rstrip(b'\x00')\<close>.
\<close>

definition rstrip_nul :: "bytes \<Rightarrow> bytes" where
  "rstrip_nul data = Bytes (rev (dropWhile (\<lambda>b. b = 0) (rev (octets data))))"

section \<open>RateLimiter\<close>

text \<open>
  \<open>class RateLimiter\<close>: \<open>limit\<close> is a number of requests, \<open>window\<close> a length of time,
  \<open>requests\<close> a \<open>defaultdict(list)\<close> from client address to the timestamps recorded
  for it.  Time stamps (\<open>time.time()\<close>) are modelled as exact rational numbers.
\<close>

record RateLimiter =
  limit :: nat
  window :: rat
  requests :: "pystr \<rightharpoonup> rat list"

text \<open>\<open>RateLimiter.__init__(limit, window)\<close>.\<close>

definition new_RateLimiter :: "nat \<Rightarrow> rat \<Rightarrow> RateLimiter" where
  "new_RateLimiter l w = \<lparr>limit = l, window = w, requests = Map.empty\<rparr>"

text \<open>Reading \<open>self.requests[client_ip]\<close>: a missing key of the defaultdict reads as \<open>[]\<close>.\<close>

definition timestamps :: "RateLimiter \<Rightarrow> pystr \<Rightarrow> rat list" where
  "timestamps rl client_ip = (case requests rl client_ip of None \<Rightarrow> [] | Some ts \<Rightarrow> ts)"

text \<open>
  \<open>RateLimiter.is_allowed\<close>; \<open>now\<close> is the value \<open>time.time()\<close> returns in this call.
  The result is the returned flag and the limiter after the call.
\<close>

definition is_allowed :: "rat \<Rightarrow> pystr \<Rightarrow> RateLimiter \<Rightarrow> bool \<times> RateLimiter" where
  "is_allowed now client_ip rl =
     (let kept = filter (\<lambda>t. now - t < window rl) (timestamps rl client_ip) in
      if length kept < limit rl
      then (True, rl\<lparr>requests := (requests rl)(client_ip \<mapsto> kept @ [now])\<rparr>)
      else (False, rl\<lparr>requests := (requests rl)(client_ip \<mapsto> kept)\<rparr>))"

text \<open>
  A history of allow checks: each entry is the client checked and the clock reading of
  that check.  \<open>run_checks\<close> performs them in order and returns the flags and the final
  limiter.
\<close>

fun run_checks :: "(pystr \<times> rat) list \<Rightarrow> RateLimiter \<Rightarrow> bool list \<times> RateLimiter" where
  "run_checks [] rl = ([], rl)"
| "run_checks ((c, t) # cs) rl =
     (let (ok, rl') = is_allowed t c rl;
          (oks, rl'') = run_checks cs rl'
      in (ok # oks, rl''))"




section \<open>Requests, results and handlers\<close>

text \<open>
  The dict built by \<open>__parseRequest\<close>, and the same dict after \<open>__handleConnection\<close> has
  added \<open>client_ip\<close> and \<open>parsed_body\<close>.
\<close>

datatype parsed_body = Json pyobject | Form "(pystr \<times> pystr) list" | Raw pystr

record parsed_request =
  verb :: pystr
  path :: pystr
  headers :: "pystr \<rightharpoonup> pystr"
  body :: pystr

record request = parsed_request +
  client_ip :: pystr
  parsed_body :: parsed_body

text \<open>
  What a handler returns.  A body is a \<open>str\<close>, a \<open>dict\<close>, or any other object, which only
  \<open>str()\<close> is applied to and which is represented by that string.  A result is a bare
  body, a \<open>(body, code)\<close> pair, a \<open>(body, code, headers)\<close> triple, or a tuple of another
  length; \<open>BadTuple n\<close> is a tuple of length \<open>other_len n\<close>, one of 0, 1, 4, 5, ...
  The headers of a triple are the items of the dict in insertion order, after \<open>str()\<close>.
\<close>

datatype body = BStr pystr | BDict pyobject | BOther pystr

datatype result =
    Bare body
  | WithCode body int
  | WithHeaders body int "(pystr \<times> pystr) list"
  | BadTuple nat

definition other_len :: "nat \<Rightarrow> nat" where
  "other_len n = (if n < 2 then n else n + 2)"

fun is_tuple :: "result \<Rightarrow> bool" where
  "is_tuple (Bare b) = False"
| "is_tuple r = True"

fun tuple_len :: "result \<Rightarrow> nat" where
  "tuple_len (Bare b) = 0"
| "tuple_len (WithCode b c) = 2"
| "tuple_len (WithHeaders b c hs) = 3"
| "tuple_len (BadTuple n) = other_len n"

text \<open>
  A handler takes the request and the state of the process and returns the new state
  with either a result or, as \<open>Inl s\<close>, an exception \<open>e\<close> it raised, \<open>s\<close> being \<open>str(e)\<close>.
  A middleware maps a handler to a handler.
\<close>

type_synonym 'w handler = "request \<Rightarrow> 'w \<Rightarrow> (pystr + result) \<times> 'w"
type_synonym 'w middleware = "'w handler \<Rightarrow> 'w handler"



section \<open>Request parser\<close>

text \<open>
  \<open>Server.__parseRequest\<close>.  \<open>parse_headers\<close> is its loop over the header lines, storing
  each line in the dict under the text before the first colon.  Unpacking a list of the
  wrong length and \<open>index\<close> on a line without a colon raise \<open>ValueError\<close>.
\<close>

fun parse_headers :: "pystr list \<Rightarrow> (pystr \<rightharpoonup> pystr) \<Rightarrow> error + (pystr \<rightharpoonup> pystr)" where
  "parse_headers [] hs = Inr hs"
| "parse_headers (line # ls) hs =
     (case str_index line 58 of
        None \<Rightarrow> Inl ValueError
      | Some idx \<Rightarrow> parse_headers ls (hs(take idx line \<mapsto> drop (idx + 2) line)))"

definition parseRequest :: "pystr \<Rightarrow> error + parsed_request" where
  "parseRequest reqstr =
     (case str_split reqstr (sep @ sep) of
        [head, body'] \<Rightarrow>
          (case str_split head sep of
             [] \<Rightarrow> Inl IndexError
           | head' # headlines \<Rightarrow>
               (case str_split head' (ascii '' '') of
                  [verb', path', version] \<Rightarrow>
                    (case parse_headers headlines Map.empty of
                       Inl e \<Rightarrow> Inl e
                     | Inr hs \<Rightarrow> Inr \<lparr>verb = verb', path = path', headers = hs, body = body'\<rparr>)
                | _ \<Rightarrow> Inl ValueError))
      | _ \<Rightarrow> Inl ValueError)"

text \<open>
  The library functions the server calls, taken as parameters: \<open>json.loads\<close> (\<open>None\<close>
  where it raises), \<open>urllib.parse.parse_qsl\<close>, \<open>json.dumps\<close> (\<open>None\<close> where it raises),
  \<open>str\<close> on a dict, and the table \<open>http.client.responses\<close>.
\<close>

record pylib =
  json_loads :: "pystr \<Rightarrow> pyobject option"
  parse_qsl :: "pystr \<Rightarrow> (pystr \<times> pystr) list"
  json_dumps :: "pyobject \<Rightarrow> pystr option"
  str_dict :: "pyobject \<Rightarrow> pystr"
  responses :: "int \<rightharpoonup> pystr"

text \<open>
  \<open>parse_body\<close>.
\<close>

definition parse_body :: "pylib \<Rightarrow> parsed_request \<Rightarrow> error + parsed_body" where
  "parse_body lib request =
     (let content_type = (case headers request (ascii ''Content-Type'') of None \<Rightarrow> [] | Some v \<Rightarrow> v) in
      if contains (ascii ''application/json'') content_type then
        (case json_loads lib (body request) of
           None \<Rightarrow> Inl JSONDecodeError
         | Some v \<Rightarrow> Inr (Json v))
      else if contains (ascii ''application/x-www-form-urlencoded'') content_type then
        Inr (Form (parse_qsl lib (body request)))
      else Inr (Raw (body request)))"

section \<open>Response serializer\<close>

text \<open>
  \<open>Server.__checkIfResultIsDict\<close> and \<open>Server.__writeReponse\<close>.  \<open>py_str\<close> is \<open>str(resp)\<close>;
  \<open>content_length\<close> is the number the source writes after \<open>Content-Length:\<close>, that is
  \<open>len(resp)\<close> of the string; \<open>response_text\<close> is the string the source builds and
  \<open>writeReponse\<close> its encoding.  \<open>application_json\<close> is the default of \<open>contentType\<close>;
  the defaults \<open>code=200\<close> and \<open>headers={}\<close> are written out at the calls.
\<close>

fun checkIfResultIsDict :: "pylib \<Rightarrow> body \<Rightarrow> error + body" where
  "checkIfResultIsDict lib (BDict d) =
     (case json_dumps lib d of None \<Rightarrow> Inl TypeError | Some s \<Rightarrow> Inr (BStr s))"
| "checkIfResultIsDict lib result = Inr result"

fun py_str :: "pylib \<Rightarrow> body \<Rightarrow> pystr" where
  "py_str lib (BStr s) = s"
| "py_str lib (BDict d) = str_dict lib d"
| "py_str lib (BOther s) = s"

definition content_length :: "pylib \<Rightarrow> body \<Rightarrow> nat" where
  "content_length lib resp = length (py_str lib resp)"

definition response_text :: "pylib \<Rightarrow> body \<Rightarrow> int \<Rightarrow> (pystr \<times> pystr) list \<Rightarrow> pystr \<Rightarrow> pystr" where
  "response_text lib resp code hdrs contentType =
     (let resp' = py_str lib resp;
          codeMessage = (case responses lib code of None \<Rightarrow> ascii ''Unknown'' | Some m \<Rightarrow> m);
          httpResp =
            ascii ''HTTP/1.1 '' @ str_int code @ ascii '' '' @ codeMessage @ sep
            @ ascii ''Content-Type: '' @ contentType @ sep
            @ ascii ''Content-Length: '' @ str_nat (length resp') @ sep;
          httpResp' = fold (\<lambda>(header, value) acc. acc @ header @ ascii '': '' @ value @ sep) hdrs httpResp
      in httpResp' @ sep @ resp')"

definition writeReponse :: "pylib \<Rightarrow> body \<Rightarrow> int \<Rightarrow> (pystr \<times> pystr) list \<Rightarrow> pystr \<Rightarrow> error + bytes" where
  "writeReponse lib resp code hdrs contentType = encode (response_text lib resp code hdrs contentType)"

definition application_json :: pystr where
  "application_json = ascii ''application/json''"

section \<open>Routes and middlewares\<close>

text \<open>
  The class attributes \<open>Server.routes\<close> and \<open>Server.beforeAllMiddlewares\<close>.
\<close>

record 'w server =
  routes :: "pystr \<rightharpoonup> 'w handler"
  beforeAllMiddlewares :: "'w middleware list"

text \<open>
  \<open>Server.__isPathValid\<close>: \<open>re.match\<close> of the pattern
  \<^verbatim>\<open>^(GET|POST|PUT|DELETE|HEAD|OPTIONS|PATCH) /[^\s]*$\<close>.  \<open>is_space\<close> is the class \<^verbatim>\<open>\s\<close> of a
  \<open>str\<close> pattern (Unicode white space).  After a verb and \<^verbatim>\<open> /\<close> the longest run of
  non-space characters is skipped; \<^verbatim>\<open>$\<close> then matches at the end of the string and, as
  in every Python pattern without \<open>re.MULTILINE\<close>, just before a newline that ends the
  string.
\<close>

definition verbs :: "pystr list" where
  "verbs = map ascii [''GET'', ''POST'', ''PUT'', ''DELETE'', ''HEAD'', ''OPTIONS'', ''PATCH'']"

definition is_space :: "nat \<Rightarrow> bool" where
  "is_space c = ((9 \<le> c \<and> c \<le> 13) \<or> (28 \<le> c \<and> c \<le> 32) \<or> c = 0x85 \<or> c = 0xA0 \<or> c = 0x1680
     \<or> (0x2000 \<le> c \<and> c \<le> 0x200A) \<or> c = 0x2028 \<or> c = 0x2029 \<or> c = 0x202F \<or> c = 0x205F
     \<or> c = 0x3000)"

definition isPathValid :: "pystr \<Rightarrow> bool" where
  "isPathValid key =
     list_ex (\<lambda>v. prefix (v @ ascii '' /'') key
               \<and> (let rest = dropWhile (\<lambda>c. \<not> is_space c) (drop (length v + 2) key)
                  in rest = [] \<or> rest = [10]))
       verbs"

text \<open>
  \<open>Server.__chainMiddlewares\<close>: the loop over \<open>reversed(middlewares)\<close>.
\<close>

definition chainMiddlewares :: "'w middleware list \<Rightarrow> 'w handler \<Rightarrow> 'w handler" where
  "chainMiddlewares middlewares func = fold (\<lambda>middleware func. middleware func) (rev middlewares) func"

text \<open>
  \<open>Server.registerHandler\<close> and \<open>Server.register\<close>.  \<open>register\<close> checks the key and returns
  the decorator; the decorator, applied later to a function, stores \<open>wrapper\<close> of it,
  wrapped by the middleware given (a function, a list, or nothing; an empty list counts
  as nothing).  \<open>wrapper\<close> turns an exception of the function into a 500 pair (the line
  it writes to the log is not modelled).
\<close>

definition registerHandler :: "'w server \<Rightarrow> pystr \<Rightarrow> 'w handler \<Rightarrow> error + 'w server" where
  "registerHandler srv key handler =
     (if \<not> isPathValid key then Inl ValueError
      else Inr (srv\<lparr>routes := (routes srv)(key \<mapsto> handler)\<rparr>))"

definition wrapper :: "'w handler \<Rightarrow> 'w handler" where
  "wrapper func = (\<lambda>request w.
     (case func request w of
        (Inl e, w') \<Rightarrow> (Inr (WithCode (BStr (ascii ''Internal Server Error: '' @ e)) 500), w')
      | (Inr r, w') \<Rightarrow> (Inr r, w')))"

datatype 'w middleware_arg = NoMiddleware | Single "'w middleware" | Several "'w middleware list"

fun decorator :: "pystr \<Rightarrow> 'w middleware_arg \<Rightarrow> 'w handler \<Rightarrow> 'w server \<Rightarrow> 'w server" where
  "decorator key NoMiddleware func srv = srv\<lparr>routes := (routes srv)(key \<mapsto> wrapper func)\<rparr>"
| "decorator key (Single middleware) func srv =
     srv\<lparr>routes := (routes srv)(key \<mapsto> middleware (wrapper func))\<rparr>"
| "decorator key (Several middleware) func srv =
     (if middleware \<noteq> []
      then srv\<lparr>routes := (routes srv)(key \<mapsto> chainMiddlewares middleware (wrapper func))\<rparr>
      else srv\<lparr>routes := (routes srv)(key \<mapsto> wrapper func)\<rparr>)"

definition register :: "pystr \<Rightarrow> 'w middleware_arg \<Rightarrow> error + ('w handler \<Rightarrow> 'w server \<Rightarrow> 'w server)" where
  "register key middleware =
     (if \<not> isPathValid key then Inl ValueError else Inr (decorator key middleware))"

text \<open>
  \<open>Server.beforeAll\<close>: its decorator appends to the global list.
\<close>

definition beforeAll :: "'w middleware \<Rightarrow> 'w server \<Rightarrow> 'w server" where
  "beforeAll func srv = srv\<lparr>beforeAllMiddlewares := beforeAllMiddlewares srv @ [func]\<rparr>"

section \<open>Connection worker\<close>

text \<open>
  \<open>Server.__handleConnection\<close>.  The connection is the list of buffers the successive
  \<open>recv\<close> calls return (\<open>recv\<close> on an exhausted list returns \<open>b''\<close>: the peer has closed)
  and the list of buffers passed to \<open>sendall\<close>; \<open>with conn\<close> closes it on every exit.
  \<open>loop_body\<close> is one pass through the body of \<open>while True\<close> after the read, and says how
  the pass ends: by reaching the end of the body (\<open>Continue\<close>), by \<open>break\<close>, by \<open>return\<close>
  or by an exception.  \<open>enrich\<close> adds \<open>client_ip\<close> (\<open>addr[0]\<close>) and \<open>parsed_body\<close> to
  the parsed request, \<open>run_handler\<close> calls the handler found, behind the global
  middlewares if there are any, and \<open>respond\<close> is the part of the body that looks at the
  shape of the handler's result.  \<open>serve\<close> is the loop.
\<close>

datatype control = Continue | Break | Return | Raise error

definition send_response :: "error + bytes \<Rightarrow> bytes list \<Rightarrow> control \<times> bytes list" where
  "send_response resp out = (case resp of Inl e \<Rightarrow> (Raise e, out) | Inr bs \<Rightarrow> (Return, out @ [bs]))"

definition respond :: "pylib \<Rightarrow> result \<Rightarrow> bytes list \<Rightarrow> control \<times> bytes list" where
  "respond lib result out =
     (case result of
        Bare r \<Rightarrow>
          (case checkIfResultIsDict lib r of
             Inl e \<Rightarrow> (Raise e, out)
           | Inr r' \<Rightarrow> send_response (writeReponse lib r' 200 [] application_json) out)
      | WithHeaders response code hdrs \<Rightarrow>
          (case checkIfResultIsDict lib response of
             Inl e \<Rightarrow> (Raise e, out)
           | Inr r' \<Rightarrow> send_response (writeReponse lib r' code hdrs application_json) out)
      | WithCode response code \<Rightarrow>
          (case checkIfResultIsDict lib response of
             Inl e \<Rightarrow> (Raise e, out)
           | Inr r' \<Rightarrow> send_response (writeReponse lib r' code [] application_json) out)
      | BadTuple n \<Rightarrow>
          (case writeReponse lib (BStr []) 500 [] application_json of
             Inl e \<Rightarrow> (Raise e, out)
           | Inr bs \<Rightarrow> (Raise ValueError, out @ [bs])))"

definition enrich :: "parsed_request \<Rightarrow> pystr \<times> nat \<Rightarrow> parsed_body \<Rightarrow> request" where
  "enrich parsed addr pb =
     \<lparr>verb = verb parsed, path = path parsed, headers = headers parsed, body = body parsed,
      client_ip = fst addr, parsed_body = pb\<rparr>"

definition run_handler :: "'w server \<Rightarrow> 'w handler \<Rightarrow> 'w handler" where
  "run_handler srv handler request w =
     (if beforeAllMiddlewares srv \<noteq> []
      then chainMiddlewares (beforeAllMiddlewares srv) handler request w
      else handler request w)"

definition loop_body ::
  "pylib \<Rightarrow> 'w server \<Rightarrow> pystr \<times> nat \<Rightarrow> bytes \<Rightarrow> bytes list \<Rightarrow> 'w \<Rightarrow> control \<times> bytes list \<times> 'w" where
  "loop_body lib srv addr data out w =
     (case decode (rstrip_nul data) of
        Inl e \<Rightarrow> (Raise e, out, w)
      | Inr reqstr \<Rightarrow>
     (case parseRequest reqstr of
        Inl e \<Rightarrow> (Raise e, out, w)
      | Inr parsed \<Rightarrow>
     (case parse_body lib parsed of
        Inl e \<Rightarrow> (Raise e, out, w)
      | Inr pb \<Rightarrow>
        (let request = enrich parsed addr pb;
             pathkey = verb parsed @ ascii '' '' @ path parsed
         in case routes srv pathkey of
              Some handler \<Rightarrow>
                (let (result, w') = run_handler srv handler request w
                 in case result of
                      Inl e \<Rightarrow> (Raise (HandlerException e), out, w')
                    | Inr r \<Rightarrow> (let (c, out') = respond lib r out in (c, out', w')))
            | None \<Rightarrow>
                (let (c, out') = send_response (writeReponse lib (BStr []) 404 [] application_json) out
                 in (c, out', w))))))"

datatype outcome = Returned | Raised error

fun serve ::
  "pylib \<Rightarrow> 'w server \<Rightarrow> pystr \<times> nat \<Rightarrow> bytes list \<Rightarrow> bytes list \<Rightarrow> 'w
    \<Rightarrow> outcome \<times> bytes list \<times> bytes list \<times> 'w" where
  "serve lib srv addr [] out w = (Returned, [], out, w)"
| "serve lib srv addr (data # rest) out w =
     (if octets data = [] then (Returned, rest, out, w)
      else (case loop_body lib srv addr data out w of
              (Continue, out', w') \<Rightarrow> serve lib srv addr rest out' w'
            | (Break, out', w') \<Rightarrow> (Returned, rest, out', w')
            | (Return, out', w') \<Rightarrow> (Returned, rest, out', w')
            | (Raise e, out', w') \<Rightarrow> (Raised e, rest, out', w')))"

record conn =
  inbox :: "bytes list"
  outbox :: "bytes list"
  closed :: bool

definition handleConnection ::
  "pylib \<Rightarrow> 'w server \<Rightarrow> conn \<Rightarrow> pystr \<times> nat \<Rightarrow> 'w \<Rightarrow> outcome \<times> conn \<times> 'w" where
  "handleConnection lib srv c addr w =
     (let (res, rest, out, w') = serve lib srv addr (inbox c) (outbox c) w
      in (res, \<lparr>inbox = rest, outbox = out, closed = True\<rparr>, w'))"

section \<open>Notions used in the statements\<close>

text \<open>
  The strings the pattern of the route keys describes: a verb of the list, a space, a
  slash and then characters that are not white space, up to the end of the string.
\<close>

definition matches_pattern :: "pystr \<Rightarrow> bool" where
  "matches_pattern key =
     (\<exists>v p. v \<in> set verbs \<and> (\<forall>c\<in>set p. \<not> is_space c) \<and> key = v @ ascii '' /'' @ p)"

text \<open>
  What the decorator of \<open>register\<close> stores for a function: the function inside
  \<open>wrapper\<close>, inside the middleware or the chain of middlewares given.
\<close>

fun stored_handler :: "'w middleware_arg \<Rightarrow> 'w handler \<Rightarrow> 'w handler" where
  "stored_handler NoMiddleware func = wrapper func"
| "stored_handler (Single m) func = m (wrapper func)"
| "stored_handler (Several ms) func = chainMiddlewares ms (wrapper func)"

text \<open>
  The malformed requests: no blank-line separator in the text; or the first line of the
  head does not split at spaces into exactly three fields; or a later line of the head
  has no colon (\<open>58\<close> is the colon).
\<close>

definition malformed :: "pystr \<Rightarrow> bool" where
  "malformed reqstr =
     (\<not> contains (sep @ sep) reqstr
      \<or> (case str_split reqstr (sep @ sep) of
            [] \<Rightarrow> False
          | head # rest \<Rightarrow>
              (case str_split head sep of
                 [] \<Rightarrow> False
               | line # lines \<Rightarrow>
                   length (str_split line (ascii '' '')) \<noteq> 3 \<or> list_ex (\<lambda>l. 58 \<notin> set l) lines)))"

section \<open>Sample data\<close>


definition demo_handler :: "'w handler" where
  "demo_handler = (\<lambda>request w. (Inr (Bare (BStr (ascii ''ok''))), w))"



text \<open>
  Sample library functions, server and buffers.
\<close>

definition demo_lib :: pylib where
  "demo_lib = \<lparr>json_loads = (\<lambda>s. None), parse_qsl = (\<lambda>s. []), json_dumps = (\<lambda>d. None),
     str_dict = (\<lambda>d. []),
     responses = [200 \<mapsto> ascii ''OK'', 404 \<mapsto> ascii ''Not Found'', 429 \<mapsto> ascii ''Too Many Requests'',
                  500 \<mapsto> ascii ''Internal Server Error'']\<rparr>"

definition demo_server :: "unit server" where
  "demo_server = \<lparr>routes = [ascii ''GET /'' \<mapsto> demo_handler], beforeAllMiddlewares = []\<rparr>"

text \<open>
  A middleware that records its tag in the state (a list of tags) before it calls the
  handler it wraps, and a handler that records \<open>0\<close>; a server with two global and two
  route middlewares of that kind; a request buffer, what it parses to, and an address.
\<close>

definition tracing :: "nat \<Rightarrow> (nat list) middleware" where
  "tracing tag f = (\<lambda>request tr. f request (tr @ [tag]))"

definition traced_handler :: "(nat list) handler" where
  "traced_handler = (\<lambda>request tr. (Inr (Bare (BStr [])), tr @ [0]))"

definition demo_get :: bytes where
  "demo_get = Bytes (ascii ''GET / HTTP/1.1'' @ sep @ sep)"

definition demo_parsed :: parsed_request where
  "demo_parsed = \<lparr>verb = ascii ''GET'', path = ascii ''/'', headers = Map.empty, body = []\<rparr>"

definition demo_addr :: "pystr \<times> nat" where
  "demo_addr = (ascii ''10.0.0.1'', 50000)"

definition traced_server :: "(nat list) server" where
  "traced_server =
     \<lparr>routes = [ascii ''GET /'' \<mapsto> chainMiddlewares [tracing 3, tracing 4] traced_handler],
      beforeAllMiddlewares = [tracing 1, tracing 2]\<rparr>"


definition bad_tuple_server :: "unit server" where
  "bad_tuple_server =
     \<lparr>routes = [ascii ''GET /'' \<mapsto> (\<lambda>request w. (Inr (BadTuple 2), w))],
      beforeAllMiddlewares = []\<rparr>"


definition ok_response :: bytes where
  "ok_response = Bytes (ascii ''HTTP/1.1 200 OK'' @ sep @ ascii ''Content-Type: application/json'' @ sep
                        @ ascii ''Content-Length: 2'' @ sep @ sep @ ascii ''ok'')"

definition demo_garbage :: bytes where
  "demo_garbage = Bytes (ascii ''garbage'')"




section \<open>Properties of the rate limiter\<close>

lemma timestamps_is_allowed:
  "timestamps (snd (is_allowed now c rl)) c' =
     (if c' = c
      then (let kept = filter (\<lambda>t. now - t < window rl) (timestamps rl c) in
            if length kept < limit rl then kept @ [now] else kept)
      else timestamps rl c')"
  by (simp add: is_allowed_def timestamps_def Let_def)


lemma limit_is_allowed [simp]: "limit (snd (is_allowed now c rl)) = limit rl"
  by (simp add: is_allowed_def Let_def)

lemma window_is_allowed [simp]: "window (snd (is_allowed now c rl)) = window rl"
  by (simp add: is_allowed_def Let_def)

lemma limit_run_checks [simp]: "limit (snd (run_checks cs rl)) = limit rl"
  by (induction cs arbitrary: rl) (auto simp: split_beta Let_def)

lemma window_run_checks [simp]: "window (snd (run_checks cs rl)) = window rl"
  by (induction cs arbitrary: rl) (auto simp: split_beta Let_def)

lemma run_checks_append:
  "run_checks (cs @ ds) rl =
     (let (oks, rl') = run_checks cs rl; (oks', rl'') = run_checks ds rl'
      in (oks @ oks', rl''))"
  by (induction cs arbitrary: rl) (auto simp: split_beta Let_def)

lemma snd_run_checks_snoc:
  "snd (run_checks (cs @ [(c, t)]) rl) = snd (is_allowed t c (snd (run_checks cs rl)))"
  by (simp add: run_checks_append split_beta Let_def)

lemma timestamps_new [simp]: "timestamps (new_RateLimiter l w) c = []"
  by (simp add: timestamps_def new_RateLimiter_def)

subsection \<open>The stored list is never longer than the limit\<close>

lemma length_is_allowed:
  assumes "length (timestamps rl c') \<le> limit rl"
  shows "length (timestamps (snd (is_allowed now c rl)) c') \<le> limit rl"
proof (cases "c' = c")
  case False
  with assms show ?thesis by (simp add: timestamps_is_allowed)
next
  case True
  let ?kept = "filter (\<lambda>t. now - t < window rl) (timestamps rl c)"
  have "length ?kept \<le> length (timestamps rl c)" by simp
  with assms True have "length ?kept \<le> limit rl" by (metis order_trans)
  with True show ?thesis by (auto simp: timestamps_is_allowed Let_def)
qed

lemma length_run_checks:
  "length (timestamps rl c') \<le> limit rl \<Longrightarrow>
   length (timestamps (snd (run_checks cs rl)) c') \<le> limit rl"
proof (induction cs arbitrary: rl)
  case Nil
  then show ?case by simp
next
  case (Cons a cs)
  obtain c t where a: "a = (c, t)" by (cases a)
  have "length (timestamps (snd (is_allowed t c rl)) c') \<le> limit (snd (is_allowed t c rl))"
    using Cons.prems by (simp add: length_is_allowed)
  from Cons.IH [OF this] show ?case by (simp add: a split_beta Let_def)
qed

text \<open>
  C10.  On a rate limiter created with limit \<open>L\<close>, after any sequence of allow checks
  (any clients, any clock readings) the list stored for any client has at most \<open>L\<close>
  entries.  Every prefix of a sequence of checks is a sequence of checks, so the bound
  holds after each call.
\<close>

theorem stored_length_le_limit:
  "length (timestamps (snd (run_checks cs (new_RateLimiter L W))) c) \<le> L"
  using length_run_checks [of "new_RateLimiter L W" c cs]
  by (simp add: new_RateLimiter_def timestamps_def)


subsection \<open>Rejection of request \<open>L + 1\<close>, and recovery\<close>

lemma limit_new [simp]: "limit (new_RateLimiter l w) = l"
  by (simp add: new_RateLimiter_def)

lemma window_new [simp]: "window (new_RateLimiter l w) = w"
  by (simp add: new_RateLimiter_def)


lemma length_fst_run_checks [simp]: "length (fst (run_checks cs rl)) = length cs"
  by (induction cs arbitrary: rl) (auto simp: split_beta Let_def)





subsection \<open>Order and age of the stored timestamps\<close>

lemma sorted_is_allowed:
  assumes "sorted (timestamps rl c')" "\<forall>u\<in>set (timestamps rl c'). u \<le> now"
  shows "sorted (timestamps (snd (is_allowed now c rl)) c')
       \<and> (\<forall>u\<in>set (timestamps (snd (is_allowed now c rl)) c'). u \<le> now)"
  using assms by (auto simp: timestamps_is_allowed Let_def sorted_append intro: sorted_wrt_filter)

lemma sorted_run_checks:
  assumes "sorted (T # map snd cs)" "sorted (timestamps rl c')"
    "\<forall>u\<in>set (timestamps rl c'). u \<le> T"
  shows "sorted (timestamps (snd (run_checks cs rl)) c')
       \<and> (\<forall>u\<in>set (timestamps (snd (run_checks cs rl)) c'). u \<le> last (T # map snd cs))"
  using assms
proof (induction cs arbitrary: rl T)
  case Nil
  then show ?case by simp
next
  case (Cons a cs)
  obtain c t where a: "a = (c, t)" by (cases a)
  have Tt: "T \<le> t" and st: "sorted (t # map snd cs)" using Cons.prems(1) a by auto
  have le: "\<forall>u\<in>set (timestamps rl c'). u \<le> t" using Cons.prems(3) Tt by auto
  note step = sorted_is_allowed [OF Cons.prems(2) le, of c]
  from Cons.IH [OF st conjunct1 [OF step] conjunct2 [OF step]]
  show ?case by (simp add: a split_beta Let_def)
qed

lemma age_is_allowed:
  assumes "u \<in> set (timestamps (snd (is_allowed now c rl)) c)"
  shows "u = now \<or> now - u < window rl"
  using assms by (auto simp: timestamps_is_allowed Let_def split: if_splits)

text \<open>
  C9, as the code has it.  Take any history of allow checks on a fresh rate limiter whose
  clock readings do not decrease from one check to the next.  After the last check, made
  for client \<open>c\<close> at time \<open>now\<close>, the list stored for every client \<open>c'\<close> is in
  non-decreasing order, and every entry \<open>u\<close> stored for the client just checked is not
  later than \<open>now\<close> and is either \<open>now\<close> itself or less than \<open>W\<close> old.  Every prefix of a
  history is a history, so this holds after every check.  Nothing is said about the age
  of the entries of the clients that were not checked: they are pruned at their own
  next check only.
\<close>

theorem stored_sorted_and_fresh:
  assumes "sorted (map snd (cs @ [(c, now)]))"
  shows "sorted (timestamps (snd (run_checks (cs @ [(c, now)]) (new_RateLimiter L W))) c')
       \<and> (\<forall>u\<in>set (timestamps (snd (run_checks (cs @ [(c, now)]) (new_RateLimiter L W))) c).
             u \<le> now \<and> (u = now \<or> now - u < W))"
proof -
  let ?rl0 = "new_RateLimiter L W"
  let ?cs = "cs @ [(c, now)]"
  have ne: "map snd ?cs \<noteq> []" by simp
  then obtain t0 ts where m: "map snd ?cs = t0 # ts" by (cases "map snd ?cs") auto
  have s0: "sorted (t0 # map snd ?cs)" using assms(1) m by simp
  have l: "last (t0 # map snd ?cs) = now" by simp
  have "sorted (timestamps (snd (run_checks ?cs ?rl0)) c'')
       \<and> (\<forall>u\<in>set (timestamps (snd (run_checks ?cs ?rl0)) c''). u \<le> now)" for c''
    using sorted_run_checks [OF s0, of ?rl0 c''] l by simp
  moreover have "u = now \<or> now - u < W"
    if "u \<in> set (timestamps (snd (run_checks ?cs ?rl0)) c)" for u
    using age_is_allowed [of u now c "snd (run_checks cs ?rl0)"] that
    by (simp add: snd_run_checks_snoc)
  ultimately show ?thesis by blast
qed

theorem stored_sorted_and_fresh_witness:
  "sorted (map snd ([(ascii ''10.0.0.1'', 1), (ascii ''10.0.0.2'', 5)] @ [(ascii ''10.0.0.1'', 70 :: rat)]))
   \<and> timestamps (snd (run_checks ([(ascii ''10.0.0.1'', 1), (ascii ''10.0.0.2'', 5)] @ [(ascii ''10.0.0.1'', 70)])
        (new_RateLimiter 100 60))) (ascii ''10.0.0.1'') = [70]
   \<and> sorted (timestamps (snd (run_checks ([(ascii ''10.0.0.1'', 1), (ascii ''10.0.0.2'', 5)] @ [(ascii ''10.0.0.1'', 70)])
        (new_RateLimiter 100 60))) (ascii ''10.0.0.2''))"
  using stored_sorted_and_fresh [of "[(ascii ''10.0.0.1'', 1), (ascii ''10.0.0.2'', 5)]" "ascii ''10.0.0.1''" 70 100 60 "ascii ''10.0.0.2''"]
  by (simp add: is_allowed_def timestamps_def new_RateLimiter_def ascii_def Let_def)

text \<open>
  The claim as stated fails for a client that is not the one being checked: after
  client \<open>10.0.0.1\<close> is checked at time 0 and client \<open>10.0.0.2\<close> at time 100, with a window
  of 60, the list stored for \<open>10.0.0.1\<close> still holds the entry 0, which is 100 old.  It
  also depends on the clock: readings 10 and then 5 for one client are stored in that
  order.
\<close>

theorem idle_client_keeps_old_entries:
  "timestamps (snd (run_checks [(ascii ''10.0.0.1'', 0), (ascii ''10.0.0.2'', 100)]
        (new_RateLimiter 100 60))) (ascii ''10.0.0.1'') = [0]
   \<and> \<not> ((100::rat) - 0 \<le> 60)
   \<and> timestamps (snd (run_checks [(ascii ''10.0.0.1'', 10), (ascii ''10.0.0.1'', 5)]
        (new_RateLimiter 100 60))) (ascii ''10.0.0.1'') = [10, 5]
   \<and> \<not> sorted [10, 5 :: rat]"
  by (simp add: is_allowed_def timestamps_def new_RateLimiter_def ascii_def Let_def)

subsection \<open>The middleware\<close>







section \<open>Properties of the middleware chain\<close>

lemma chainMiddlewares_Nil [simp]: "chainMiddlewares [] h = h"
  by (simp add: chainMiddlewares_def)

lemma chainMiddlewares_snoc: "chainMiddlewares (ms @ [m]) h = chainMiddlewares ms (m h)"
  by (simp add: chainMiddlewares_def)

lemma chainMiddlewares_Cons: "chainMiddlewares (m # ms) h = m (chainMiddlewares ms h)"
  by (simp add: chainMiddlewares_def)

lemma chainMiddlewares_append:
  "chainMiddlewares (gs @ rs) h = chainMiddlewares gs (chainMiddlewares rs h)"
  by (simp add: chainMiddlewares_def)

lemma chainMiddlewares_tracing:
  "chainMiddlewares (map tracing tags) h request tr = h request (tr @ tags)"
  by (induction tags arbitrary: tr) (simp_all add: chainMiddlewares_Cons tracing_def)

lemma run_handler_chain:
  "run_handler srv handler = chainMiddlewares (beforeAllMiddlewares srv) handler"
  by (rule ext, rule ext) (simp add: run_handler_def)

lemma loop_body_routed:
  assumes "decode (rstrip_nul data) = Inr reqstr" "parseRequest reqstr = Inr parsed"
    "parse_body lib parsed = Inr pb"
    "routes srv (verb parsed @ ascii '' '' @ path parsed) = Some handler"
  shows "loop_body lib srv addr data out w =
     (case run_handler srv handler (enrich parsed addr pb) w of
        (Inl e, w') \<Rightarrow> (Raise (HandlerException e), out, w')
      | (Inr r, w') \<Rightarrow> (fst (respond lib r out), snd (respond lib r out), w'))"
  using assms by (simp add: loop_body_def Let_def split_beta split: sum.splits prod.splits)

lemma routes_decorator:
  "routes (decorator key (Several rs) func srv) key = Some (chainMiddlewares rs (wrapper func))"
  by simp

text \<open>
  C3.  The chain builder applies the last middleware to the handler first and the first
  middleware last: \<open>chainMiddlewares [m1, ..., mn] h = m1 (... (mn h))\<close>.  So the first
  middleware runs first and the handler innermost: middlewares that record a tag when
  they are entered leave their tags in list order, before the handler runs.  At
  dispatch the handler found in the registry is called behind the global list
  (\<open>run_handler\<close>), whatever the route; a route registered with a middleware list
  \<open>rs\<close> holds \<open>chainMiddlewares rs\<close> of its function, so the function called is the
  chain of the global list followed by \<open>rs\<close>: global middlewares are outermost.
\<close>

theorem middleware_order:
  "chainMiddlewares (ms @ [mn]) h = chainMiddlewares ms (mn h)
   \<and> chainMiddlewares (m1 # ms) h = m1 (chainMiddlewares ms h)
   \<and> chainMiddlewares (map tracing tags) h' request tr = h' request (tr @ tags)
   \<and> run_handler srv handler = chainMiddlewares (beforeAllMiddlewares srv) handler
   \<and> (decode (rstrip_nul data) = Inr reqstr \<and> parseRequest reqstr = Inr parsed
        \<and> parse_body lib parsed = Inr pb
        \<and> routes srv (verb parsed @ ascii '' '' @ path parsed) = Some handler
      \<longrightarrow> loop_body lib srv addr data out w =
           (case chainMiddlewares (beforeAllMiddlewares srv) handler (enrich parsed addr pb) w of
              (Inl e, w') \<Rightarrow> (Raise (HandlerException e), out, w')
            | (Inr r, w') \<Rightarrow> (fst (respond lib r out), snd (respond lib r out), w')))
   \<and> (routes srv key = Some (chainMiddlewares rs func)
      \<longrightarrow> run_handler srv (the (routes srv key)) = chainMiddlewares (beforeAllMiddlewares srv @ rs) func)
   \<and> routes (decorator key (Several rs) func' srv') key = Some (chainMiddlewares rs (wrapper func'))"
proof (intro conjI impI)
  show "chainMiddlewares (ms @ [mn]) h = chainMiddlewares ms (mn h)"
    by (rule chainMiddlewares_snoc)
  show "chainMiddlewares (m1 # ms) h = m1 (chainMiddlewares ms h)"
    by (rule chainMiddlewares_Cons)
  show "chainMiddlewares (map tracing tags) h' request tr = h' request (tr @ tags)"
    by (rule chainMiddlewares_tracing)
  show "run_handler srv handler = chainMiddlewares (beforeAllMiddlewares srv) handler"
    by (rule run_handler_chain)
  show "routes (decorator key (Several rs) func' srv') key = Some (chainMiddlewares rs (wrapper func'))"
    by (rule routes_decorator)
next
  assume "decode (rstrip_nul data) = Inr reqstr \<and> parseRequest reqstr = Inr parsed
        \<and> parse_body lib parsed = Inr pb
        \<and> routes srv (verb parsed @ ascii '' '' @ path parsed) = Some handler"
  then show "loop_body lib srv addr data out w =
           (case chainMiddlewares (beforeAllMiddlewares srv) handler (enrich parsed addr pb) w of
              (Inl e, w') \<Rightarrow> (Raise (HandlerException e), out, w')
            | (Inr r, w') \<Rightarrow> (fst (respond lib r out), snd (respond lib r out), w'))"
    using loop_body_routed [of data reqstr parsed lib pb srv handler addr out w]
    by (simp add: run_handler_chain)
next
  assume "routes srv key = Some (chainMiddlewares rs func)"
  then show "run_handler srv (the (routes srv key)) = chainMiddlewares (beforeAllMiddlewares srv @ rs) func"
    by (simp add: run_handler_chain chainMiddlewares_append)
qed

lemma decode_demo_get: "decode (rstrip_nul demo_get) = Inr (ascii ''GET / HTTP/1.1'' @ sep @ sep)"
  by (simp add: demo_get_def decode_def rstrip_nul_def ascii_def sep_def)

lemma parseRequest_demo_get: "parseRequest (ascii ''GET / HTTP/1.1'' @ sep @ sep) = Inr demo_parsed"
  by (simp add: parseRequest_def str_split_def ascii_def sep_def demo_parsed_def)

lemma parse_body_demo: "parse_body demo_lib demo_parsed = Inr (Raw [])"
  by (simp add: parse_body_def demo_parsed_def ascii_def)

theorem middleware_order_witness:
  "decode (rstrip_nul demo_get) = Inr (ascii ''GET / HTTP/1.1'' @ sep @ sep)
   \<and> parseRequest (ascii ''GET / HTTP/1.1'' @ sep @ sep) = Inr demo_parsed
   \<and> parse_body demo_lib demo_parsed = Inr (Raw [])
   \<and> routes traced_server (verb demo_parsed @ ascii '' '' @ path demo_parsed)
       = Some (chainMiddlewares [tracing 3, tracing 4] traced_handler)
   \<and> snd (snd (loop_body demo_lib traced_server demo_addr demo_get [] [])) = [1, 2, 3, 4, 0]"
proof -
  have r: "routes traced_server (verb demo_parsed @ ascii '' '' @ path demo_parsed)
       = Some (chainMiddlewares [tracing 3, tracing 4] traced_handler)"
    by (simp add: traced_server_def demo_parsed_def ascii_def)
  note inst = middleware_order [where data = demo_get
      and reqstr = "ascii ''GET / HTTP/1.1'' @ sep @ sep"
      and parsed = demo_parsed and lib = demo_lib and pb = "Raw []" and srv = traced_server
      and handler = "chainMiddlewares [tracing 3, tracing 4] traced_handler"
      and addr = demo_addr and out = "[]" and w = "[]"]
  from inst decode_demo_get parseRequest_demo_get parse_body_demo r
  have "loop_body demo_lib traced_server demo_addr demo_get [] [] =
           (case chainMiddlewares (beforeAllMiddlewares traced_server)
                   (chainMiddlewares [tracing 3, tracing 4] traced_handler)
                   (enrich demo_parsed demo_addr (Raw [])) [] of
              (Inl e, w') \<Rightarrow> (Raise (HandlerException e), [], w')
            | (Inr r, w') \<Rightarrow> (fst (respond demo_lib r []), snd (respond demo_lib r []), w'))"
    by blast
  then have "snd (snd (loop_body demo_lib traced_server demo_addr demo_get [] [])) = [1, 2, 3, 4, 0]"
    by (simp add: traced_server_def chainMiddlewares_Cons tracing_def traced_handler_def)
  with decode_demo_get parseRequest_demo_get parse_body_demo r show ?thesis by blast
qed

section \<open>Properties of the route registry\<close>

lemma is_space_newline: "is_space 10"
  by (simp add: is_space_def)

lemma dropWhile_end_iff:
  "(dropWhile (\<lambda>c. \<not> is_space c) rest = [] \<or> dropWhile (\<lambda>c. \<not> is_space c) rest = [10])
     = (\<exists>p. (\<forall>c\<in>set p. \<not> is_space c) \<and> (rest = p \<or> rest = p @ [10]))"
proof
  assume l: "dropWhile (\<lambda>c. \<not> is_space c) rest = [] \<or> dropWhile (\<lambda>c. \<not> is_space c) rest = [10]"
  let ?p = "takeWhile (\<lambda>c. \<not> is_space c) rest"
  have "\<forall>c\<in>set ?p. \<not> is_space c" by (auto dest: set_takeWhileD)
  moreover have "rest = ?p @ dropWhile (\<lambda>c. \<not> is_space c) rest" by simp
  ultimately show "\<exists>p. (\<forall>c\<in>set p. \<not> is_space c) \<and> (rest = p \<or> rest = p @ [10])"
    using l by (metis append_Nil2)
next
  assume "\<exists>p. (\<forall>c\<in>set p. \<not> is_space c) \<and> (rest = p \<or> rest = p @ [10])"
  then obtain p where p: "\<forall>c\<in>set p. \<not> is_space c" and r: "rest = p \<or> rest = p @ [10]" by blast
  from r show "dropWhile (\<lambda>c. \<not> is_space c) rest = [] \<or> dropWhile (\<lambda>c. \<not> is_space c) rest = [10]"
  proof
    assume "rest = p"
    with p show ?thesis by simp
  next
    assume "rest = p @ [10]"
    with p have "dropWhile (\<lambda>c. \<not> is_space c) rest = [10]"
      by (simp add: dropWhile_append2 is_space_newline)
    then show ?thesis by simp
  qed
qed

lemma isPathValid_forms:
  "isPathValid key =
     (\<exists>v p. v \<in> set verbs \<and> (\<forall>c\<in>set p. \<not> is_space c)
        \<and> (key = v @ ascii '' /'' @ p \<or> key = v @ ascii '' /'' @ p @ [10]))"
proof
  assume "isPathValid key"
  then obtain v where v: "v \<in> set verbs" and pre: "prefix (v @ ascii '' /'') key"
    and d: "(let rest = dropWhile (\<lambda>c. \<not> is_space c) (drop (length v + 2) key)
             in rest = [] \<or> rest = [10])"
    by (auto simp: isPathValid_def list_ex_iff)
  from pre obtain rest where k: "key = v @ ascii '' /'' @ rest" by (auto simp: prefix_def)
  then have "drop (length v + 2) key = rest" by (simp add: ascii_def)
  with d obtain p where "\<forall>c\<in>set p. \<not> is_space c" "rest = p \<or> rest = p @ [10]"
    using dropWhile_end_iff [of rest] by (auto simp: Let_def)
  with v k show "\<exists>v p. v \<in> set verbs \<and> (\<forall>c\<in>set p. \<not> is_space c)
        \<and> (key = v @ ascii '' /'' @ p \<or> key = v @ ascii '' /'' @ p @ [10])" by blast
next
  assume "\<exists>v p. v \<in> set verbs \<and> (\<forall>c\<in>set p. \<not> is_space c)
        \<and> (key = v @ ascii '' /'' @ p \<or> key = v @ ascii '' /'' @ p @ [10])"
  then obtain v p where v: "v \<in> set verbs" and p: "\<forall>c\<in>set p. \<not> is_space c"
    and k: "key = v @ ascii '' /'' @ p \<or> key = v @ ascii '' /'' @ p @ [10]"
    by blast
  define rest where "rest = drop (length v + 2) key"
  from k have r: "rest = p \<or> rest = p @ [10]" by (auto simp: rest_def ascii_def)
  from k have pre: "prefix (v @ ascii '' /'') key" by (auto simp: prefix_def)
  from r p have "dropWhile (\<lambda>c. \<not> is_space c) rest = [] \<or> dropWhile (\<lambda>c. \<not> is_space c) rest = [10]"
    using dropWhile_end_iff [of rest] by blast
  with v pre show "isPathValid key"
    by (auto simp: isPathValid_def list_ex_iff Let_def rest_def)
qed

text \<open>
  What \<open>re.match\<close> accepts: the keys the pattern describes, and also each of them
  followed by one newline, because \<^verbatim>\<open>$\<close> matches before a newline that ends the string.
\<close>

lemma isPathValid_iff:
  "isPathValid key = (matches_pattern key \<or> (\<exists>k. key = k @ [10] \<and> matches_pattern k))"
proof
  assume "isPathValid key"
  then obtain v p where v: "v \<in> set verbs" and p: "\<forall>c\<in>set p. \<not> is_space c"
    and k: "key = v @ ascii '' /'' @ p \<or> key = v @ ascii '' /'' @ p @ [10]"
    unfolding isPathValid_forms by blast
  from k show "matches_pattern key \<or> (\<exists>k. key = k @ [10] \<and> matches_pattern k)"
  proof
    assume "key = v @ ascii '' /'' @ p"
    with v p have "matches_pattern key" unfolding matches_pattern_def by blast
    then show ?thesis by blast
  next
    assume "key = v @ ascii '' /'' @ p @ [10]"
    then have "key = (v @ ascii '' /'' @ p) @ [10]" by simp
    moreover from v p have "matches_pattern (v @ ascii '' /'' @ p)"
      unfolding matches_pattern_def by blast
    ultimately show ?thesis by blast
  qed
next
  assume "matches_pattern key \<or> (\<exists>k. key = k @ [10] \<and> matches_pattern k)"
  then show "isPathValid key"
  proof
    assume "matches_pattern key"
    then show ?thesis unfolding matches_pattern_def isPathValid_forms by blast
  next
    assume "\<exists>k. key = k @ [10] \<and> matches_pattern k"
    then obtain k v p where "key = k @ [10]" "v \<in> set verbs" "\<forall>c\<in>set p. \<not> is_space c"
      "k = v @ ascii '' /'' @ p"
      unfolding matches_pattern_def by blast
    then have "v \<in> set verbs \<and> (\<forall>c\<in>set p. \<not> is_space c) \<and> key = v @ ascii '' /'' @ p @ [10]"
      by simp
    then show ?thesis unfolding isPathValid_forms by blast
  qed
qed

lemma matches_pattern_last:
  assumes "matches_pattern key"
  shows "\<not> is_space (last key)"
proof -
  from assms obtain v p where p: "\<forall>c\<in>set p. \<not> is_space c" and k: "key = v @ ascii '' /'' @ p"
    unfolding matches_pattern_def by blast
  show ?thesis
  proof (cases "p = []")
    case True
    with k have "last key = 47" by (simp add: ascii_def)
    then show ?thesis by (simp add: is_space_def)
  next
    case False
    with k have "last key = last p" by simp
    moreover from False have "last p \<in> set p" by simp
    ultimately show ?thesis using p by simp
  qed
qed

lemma routes_decorator_same:
  "routes (decorator key mw func srv) key = Some (stored_handler mw func)"
  by (cases mw) simp_all

lemma routes_decorator_other:
  "k \<noteq> key \<Longrightarrow> routes (decorator key mw func srv) k = routes srv k"
  by (cases mw) simp_all

lemma beforeAll_decorator:
  "beforeAllMiddlewares (decorator key mw func srv) = beforeAllMiddlewares srv"
  by (cases mw) simp_all

text \<open>
  Registration follows \<open>isPathValid\<close>.  For a key it rejects, \<open>registerHandler\<close> and
  \<open>register\<close> raise \<open>ValueError\<close> at the call and nothing is stored.  For a key it
  accepts, \<open>registerHandler\<close> stores the handler under the key, whatever was stored there
  before, leaving the other keys and the global middlewares as they were; \<open>register\<close>
  returns its decorator, which stores the wrapped function under the key in the same
  way.
\<close>

lemma registration_follows_isPathValid:
  fixes srv :: "'w server" and mw :: "'w middleware_arg"
  shows
  "(\<not> isPathValid key \<longrightarrow>
        registerHandler srv key handler = Inl ValueError \<and> register key mw = Inl ValueError)
   \<and> (isPathValid key \<longrightarrow>
        (\<exists>srv'. registerHandler srv key handler = Inr srv'
            \<and> routes srv' key = Some handler
            \<and> (\<forall>k. k \<noteq> key \<longrightarrow> routes srv' k = routes srv k)
            \<and> beforeAllMiddlewares srv' = beforeAllMiddlewares srv)
        \<and> (\<exists>dec. register key mw = Inr dec
            \<and> routes (dec func srv) key = Some (stored_handler mw func)
            \<and> (\<forall>k. k \<noteq> key \<longrightarrow> routes (dec func srv) k = routes srv k)
            \<and> beforeAllMiddlewares (dec func srv) = beforeAllMiddlewares srv))"
  by (simp add: registerHandler_def register_def routes_decorator_same
      routes_decorator_other beforeAll_decorator)

lemma registration_of_matching_key:
  assumes "matches_pattern key"
  shows "registerHandler srv key handler = Inr (srv\<lparr>routes := (routes srv)(key \<mapsto> handler)\<rparr>)"
    and "register key mw = Inr (decorator key mw)"
  using assms by (simp_all add: registerHandler_def register_def isPathValid_iff)

lemma registration_examples:
  "isPathValid (ascii ''GET /api/data'')"
  "\<not> isPathValid (ascii ''FETCH /api/data'')"
  "\<not> isPathValid (ascii ''GET /api data'')"
  by (simp_all add: isPathValid_def verbs_def ascii_def is_space_def)

text \<open>
  C6, as the code has it.  The key \<open>"GET /x\n"\<close> does not match the pattern: it ends in a
  newline, which is white space.  \<open>re.match\<close> accepts it all the same, because \<^verbatim>\<open>$\<close>
  also matches just before a newline that ends the string; so \<open>registerHandler\<close> does
  not raise and stores the handler under that key, and \<open>register\<close> returns its decorator
  instead of raising.
\<close>

theorem trailing_newline_key_accepted:
  "\<not> matches_pattern (ascii ''GET /x'' @ [10])
   \<and> isPathValid (ascii ''GET /x'' @ [10])
   \<and> registerHandler demo_server (ascii ''GET /x'' @ [10]) demo_handler
       = Inr (demo_server\<lparr>routes := (routes demo_server)(ascii ''GET /x'' @ [10] \<mapsto> demo_handler)\<rparr>)
   \<and> routes (demo_server\<lparr>routes := (routes demo_server)(ascii ''GET /x'' @ [10] \<mapsto> demo_handler)\<rparr>)
        (ascii ''GET /x'' @ [10]) = Some demo_handler
   \<and> register (ascii ''GET /x'' @ [10]) (NoMiddleware :: unit middleware_arg)
       = Inr (decorator (ascii ''GET /x'' @ [10]) NoMiddleware)"
proof -
  have "is_space (last (ascii ''GET /x'' @ [10]))" by (simp add: is_space_def)
  then have n: "\<not> matches_pattern (ascii ''GET /x'' @ [10])"
    using matches_pattern_last by blast
  have v: "isPathValid (ascii ''GET /x'' @ [10])"
    by (simp add: isPathValid_def verbs_def ascii_def is_space_def)
  from n v show ?thesis by (simp add: registerHandler_def register_def)
qed

lemma matches_pattern_example: "matches_pattern (ascii ''GET /x'')"
  unfolding matches_pattern_def
  by (rule exI [of _ "ascii ''GET''"], rule exI [of _ "ascii ''x''"])
    (simp add: verbs_def ascii_def is_space_def)

theorem trailing_newline_key_accepted_witness:
  "matches_pattern (ascii ''GET /x'')
   \<and> \<not> matches_pattern (ascii ''GET /x'' @ [10])
   \<and> isPathValid (ascii ''GET /x'' @ [10])
   \<and> registerHandler demo_server (ascii ''GET /x'' @ [10]) demo_handler \<noteq> Inl ValueError"
  using trailing_newline_key_accepted matches_pattern_example by simp

section \<open>Properties of the connection worker\<close>

lemma encode_octets_ascii: "\<forall>c\<in>set s. c < 128 \<Longrightarrow> encode_octets s = Some s"
  by (induction s) simp_all

lemma encode_ascii: "\<forall>c\<in>set s. c < 128 \<Longrightarrow> encode s = Inr (Bytes s)"
  by (simp add: encode_def encode_octets_ascii)

lemma content_length_ascii:
  assumes "\<forall>c\<in>set (py_str lib resp). c < 128"
  shows "encode (py_str lib resp) = Inr (Bytes (py_str lib resp))"
    and "content_length lib resp = length (py_str lib resp)"
  using assms by (simp_all add: encode_ascii content_length_def)


lemma writeReponse_500:
  assumes "responses lib 500 = Some (ascii ''Internal Server Error'')"
  shows "writeReponse lib (BStr []) 500 [] application_json =
     Inr (Bytes (ascii ''HTTP/1.1 500 Internal Server Error'' @ sep
                 @ ascii ''Content-Type: application/json'' @ sep
                 @ ascii ''Content-Length: 0'' @ sep @ sep))"
proof -
  have "response_text lib (BStr []) 500 [] application_json =
      ascii ''HTTP/1.1 500 Internal Server Error'' @ sep @ ascii ''Content-Type: application/json'' @ sep
                 @ ascii ''Content-Length: 0'' @ sep @ sep"
    using assms
    by (simp add: response_text_def application_json_def str_int_def str_nat.simps ascii_def)
  moreover have "\<forall>c\<in>set (ascii ''HTTP/1.1 500 Internal Server Error'' @ sep
                 @ ascii ''Content-Type: application/json'' @ sep
                 @ ascii ''Content-Length: 0'' @ sep @ sep). c < 128"
    by (simp add: ascii_def sep_def)
  ultimately show ?thesis by (simp add: writeReponse_def encode_ascii)
qed

lemma send_response_cases:
  "fst (send_response resp out) = Return \<or> (\<exists>e. fst (send_response resp out) = Raise e)"
  by (cases resp) (simp_all add: send_response_def)

lemma respond_cases:
  "fst (respond lib r out) = Return \<or> (\<exists>e. fst (respond lib r out) = Raise e)"
  using send_response_cases
  by (cases r) (auto simp: respond_def split: sum.splits)

lemma loop_body_cases:
  "fst (loop_body lib srv addr data out w) = Return
   \<or> (\<exists>e. fst (loop_body lib srv addr data out w) = Raise e)"
  using respond_cases send_response_cases
  by (auto simp: loop_body_def Let_def split_beta split: sum.splits option.splits)

lemma loop_body_not_Continue: "fst (loop_body lib srv addr data out w) \<noteq> Continue"
  using loop_body_cases [of lib srv addr data out w] by auto

lemma send_response_out:
  "snd (send_response resp out) = out \<or> (\<exists>bs. snd (send_response resp out) = out @ [bs])"
  by (cases resp) (simp_all add: send_response_def)

lemma respond_out:
  "snd (respond lib r out) = out \<or> (\<exists>bs. snd (respond lib r out) = out @ [bs])"
  using send_response_out
  by (cases r) (auto simp: respond_def split: sum.splits)

lemma loop_body_out:
  "fst (snd (loop_body lib srv addr data out w)) = out
   \<or> (\<exists>bs. fst (snd (loop_body lib srv addr data out w)) = out @ [bs])"
  using respond_out send_response_out
  by (auto simp: loop_body_def Let_def split_beta split: sum.splits option.splits)

lemma serve_one_pass:
  assumes "octets data \<noteq> []"
  shows "serve lib srv addr (data # rest) out w =
     (case loop_body lib srv addr data out w of
        (c, out', w') \<Rightarrow> ((case c of Raise e \<Rightarrow> Raised e | _ \<Rightarrow> Returned), rest, out', w'))"
  using assms loop_body_not_Continue [of lib srv addr data out w]
  by (auto split: prod.splits control.splits)

lemma handleConnection_one_pass:
  assumes "octets data \<noteq> []"
  shows "handleConnection lib srv \<lparr>inbox = data # rest, outbox = out, closed = cl\<rparr> addr w =
     (case loop_body lib srv addr data out w of
        (c, out', w') \<Rightarrow>
          ((case c of Raise e \<Rightarrow> Raised e | _ \<Rightarrow> Returned),
           \<lparr>inbox = rest, outbox = out', closed = True\<rparr>, w'))"
  using serve_one_pass [OF assms, of lib srv addr rest out w]
  by (simp add: handleConnection_def split: prod.splits)





text \<open>
  C7.  When the handler called for a routed request returns a tuple whose length is
  neither 2 nor 3, the worker sends the 500 response with an empty body and then ends
  with a \<open>ValueError\<close>: the response is in the output and the exception is raised.
\<close>

theorem bad_tuple_double_fault:
  assumes "octets data \<noteq> []" and "decode (rstrip_nul data) = Inr reqstr"
    and "parseRequest reqstr = Inr parsed" and "parse_body lib parsed = Inr pb"
    and "routes srv (verb parsed @ ascii '' '' @ path parsed) = Some handler"
    and "run_handler srv handler (enrich parsed addr pb) w = (Inr r, w')"
    and "is_tuple r" and "tuple_len r \<noteq> 2" and "tuple_len r \<noteq> 3"
    and "responses lib 500 = Some (ascii ''Internal Server Error'')"
  shows "handleConnection lib srv \<lparr>inbox = data # rest, outbox = out, closed = cl\<rparr> addr w =
          (Raised ValueError,
           \<lparr>inbox = rest,
            outbox = out @ [Bytes (ascii ''HTTP/1.1 500 Internal Server Error'' @ sep
                                   @ ascii ''Content-Type: application/json'' @ sep
                                   @ ascii ''Content-Length: 0'' @ sep @ sep)],
            closed = True\<rparr>, w')"
proof -
  from assms(7-9) obtain n where r: "r = BadTuple n" by (cases r) auto
  have "respond lib r out = (Raise ValueError,
      out @ [Bytes (ascii ''HTTP/1.1 500 Internal Server Error'' @ sep
                                   @ ascii ''Content-Type: application/json'' @ sep
                                   @ ascii ''Content-Length: 0'' @ sep @ sep)])"
    by (simp add: r respond_def writeReponse_500 [OF assms(10)])
  then show ?thesis
    by (simp add: handleConnection_one_pass [OF assms(1)] loop_body_routed [OF assms(2-5)] assms(6))
qed

lemma octets_demo_get: "octets demo_get \<noteq> []"
  by (simp add: demo_get_def ascii_def)




lemma respond_ok: "respond demo_lib (Bare (BStr (ascii ''ok''))) out = (Return, out @ [ok_response])"
  by (simp add: respond_def send_response_def writeReponse_def response_text_def demo_lib_def
      application_json_def str_int_def str_nat.simps ascii_def sep_def encode_def ok_response_def)







theorem bad_tuple_double_fault_witness:
  "octets demo_get \<noteq> []
   \<and> decode (rstrip_nul demo_get) = Inr (ascii ''GET / HTTP/1.1'' @ sep @ sep)
   \<and> parseRequest (ascii ''GET / HTTP/1.1'' @ sep @ sep) = Inr demo_parsed
   \<and> parse_body demo_lib demo_parsed = Inr (Raw [])
   \<and> routes bad_tuple_server (verb demo_parsed @ ascii '' '' @ path demo_parsed)
        = Some (\<lambda>request w. (Inr (BadTuple 2), w))
   \<and> run_handler bad_tuple_server (\<lambda>request w. (Inr (BadTuple 2), w))
        (enrich demo_parsed demo_addr (Raw [])) () = (Inr (BadTuple 2), ())
   \<and> is_tuple (BadTuple 2) \<and> tuple_len (BadTuple 2) = 4
   \<and> responses demo_lib 500 = Some (ascii ''Internal Server Error'')
   \<and> handleConnection demo_lib bad_tuple_server \<lparr>inbox = [demo_get], outbox = [], closed = False\<rparr>
        demo_addr () =
       (Raised ValueError,
        \<lparr>inbox = [],
         outbox = [Bytes (ascii ''HTTP/1.1 500 Internal Server Error'' @ sep
                          @ ascii ''Content-Type: application/json'' @ sep
                          @ ascii ''Content-Length: 0'' @ sep @ sep)],
         closed = True\<rparr>, ())"
proof -
  have r: "routes bad_tuple_server (verb demo_parsed @ ascii '' '' @ path demo_parsed)
        = Some (\<lambda>request w. (Inr (BadTuple 2), w))"
    by (simp add: bad_tuple_server_def demo_parsed_def ascii_def)
  have h: "run_handler bad_tuple_server (\<lambda>request w. (Inr (BadTuple 2), w))
        (enrich demo_parsed demo_addr (Raw [])) () = (Inr (BadTuple 2), ())"
    by (simp add: run_handler_def bad_tuple_server_def)
  have t: "is_tuple (BadTuple 2)" by simp
  have l: "tuple_len (BadTuple 2) = 4" by (simp add: other_len_def)
  have l2: "tuple_len (BadTuple 2) \<noteq> 2" and l3: "tuple_len (BadTuple 2) \<noteq> 3"
    by (simp_all add: other_len_def)
  have p: "responses demo_lib 500 = Some (ascii ''Internal Server Error'')"
    by (simp add: demo_lib_def)
  note inst = bad_tuple_double_fault [OF octets_demo_get decode_demo_get parseRequest_demo_get
      parse_body_demo r h t l2 l3 p, where rest = "[]" and out = "[]" and cl = False]
  from inst have i: "handleConnection demo_lib bad_tuple_server
        \<lparr>inbox = [demo_get], outbox = [], closed = False\<rparr> demo_addr () =
       (Raised ValueError,
        \<lparr>inbox = [],
         outbox = [Bytes (ascii ''HTTP/1.1 500 Internal Server Error'' @ sep
                          @ ascii ''Content-Type: application/json'' @ sep
                          @ ascii ''Content-Length: 0'' @ sep @ sep)],
         closed = True\<rparr>, ())" by simp
  from octets_demo_get decode_demo_get parseRequest_demo_get parse_body_demo r h t l p i
  show ?thesis by blast
qed

lemma inbox_handleConnection:
  "inbox (fst (snd (handleConnection lib srv c addr w))) = tl (inbox c)"
proof (cases "inbox c")
  case Nil
  then show ?thesis by (simp add: handleConnection_def)
next
  case (Cons data rest)
  then show ?thesis
    using loop_body_not_Continue [of lib srv addr data "outbox c" w]
    by (auto simp: handleConnection_def split: prod.splits control.splits)
qed

lemma outbox_handleConnection:
  "length (outbox (fst (snd (handleConnection lib srv c addr w)))) \<le> length (outbox c) + 1"
proof (cases "inbox c")
  case Nil
  then show ?thesis by (simp add: handleConnection_def)
next
  case (Cons data rest)
  then show ?thesis
    using loop_body_not_Continue [of lib srv addr data "outbox c" w]
      loop_body_out [of lib srv addr data "outbox c" w]
    by (auto simp: handleConnection_def split: prod.splits control.splits)
qed

text \<open>
  C8, as the code has it.  Every path through the body of the loop ends in \<open>return\<close> or
  in an exception, so the loop never comes round: a call of \<open>__handleConnection\<close> takes
  one buffer from the connection and sends at most one response.  For a connection that
  delivers two well-formed routed requests in two reads, the first is answered and the
  second is left unread when the worker returns and the connection is closed.
\<close>

theorem returns_after_first_response:
  "inbox (fst (snd (handleConnection lib srv c addr w))) = tl (inbox c)
   \<and> length (outbox (fst (snd (handleConnection lib srv c addr w)))) \<le> length (outbox c) + 1
   \<and> handleConnection demo_lib demo_server
        \<lparr>inbox = [demo_get, demo_get], outbox = [], closed = False\<rparr> demo_addr ()
      = (Returned, \<lparr>inbox = [demo_get], outbox = [ok_response], closed = True\<rparr>, ())"
proof -
  have r1: "routes demo_server (verb demo_parsed @ ascii '' '' @ path demo_parsed) = Some demo_handler"
    by (simp add: demo_server_def demo_parsed_def ascii_def)
  have h: "run_handler demo_server demo_handler (enrich demo_parsed demo_addr (Raw [])) ()
      = (Inr (Bare (BStr (ascii ''ok''))), ())"
    by (simp add: run_handler_def demo_server_def demo_handler_def)
  have "loop_body demo_lib demo_server demo_addr demo_get [] () = (Return, [ok_response], ())"
    by (simp add: loop_body_routed [OF decode_demo_get parseRequest_demo_get parse_body_demo r1]
        h respond_ok)
  then have "handleConnection demo_lib demo_server
        \<lparr>inbox = [demo_get, demo_get], outbox = [], closed = False\<rparr> demo_addr ()
      = (Returned, \<lparr>inbox = [demo_get], outbox = [ok_response], closed = True\<rparr>, ())"
    by (simp add: handleConnection_one_pass [OF octets_demo_get])
  with inbox_handleConnection [of lib srv c addr w] outbox_handleConnection [of lib srv c addr w]
  show ?thesis by (intro conjI)
qed

text \<open>
  C4, as the code has it.  \<open>Content-Length\<close> is \<open>len(resp)\<close> of the string, the number of
  its code points, taken before the response is encoded.  For the body a single \<open>e\<close> with acute accent (U+00E9)
  the header says 1 and the encoded body has the two octets C3 A9.
\<close>

theorem content_length_counts_code_points:
  "content_length demo_lib (BStr [233]) = 1
   \<and> encode (py_str demo_lib (BStr [233])) = Inr (Bytes [0xC3, 0xA9])
   \<and> writeReponse demo_lib (BStr [233]) 200 [] application_json =
       Inr (Bytes (ascii ''HTTP/1.1 200 OK'' @ sep @ ascii ''Content-Type: application/json'' @ sep
                   @ ascii ''Content-Length: 1'' @ sep @ sep @ [0xC3, 0xA9]))"
  by (simp add: content_length_def writeReponse_def response_text_def demo_lib_def
      application_json_def str_int_def str_nat.simps ascii_def sep_def encode_def)

section \<open>Malformed requests\<close>

lemma split_from_nonempty: "split_from d cur s \<noteq> []"
  by (induction d cur s rule: split_from.induct) auto

lemma str_split_nonempty: "str_split s d \<noteq> []"
  by (simp add: str_split_def split_from_nonempty)

lemma parse_headers_error: "parse_headers ls hs = Inl e \<Longrightarrow> e = ValueError"
  by (induction ls arbitrary: hs) (auto split: option.splits)

lemma parseRequest_error: "parseRequest reqstr = Inl e \<Longrightarrow> e = ValueError"
  using str_split_nonempty
  by (auto simp: parseRequest_def split: list.splits sum.splits dest: parse_headers_error)

lemma split_from_no_sep: "\<not> contains d s \<Longrightarrow> split_from d cur s = [cur @ s]"
  by (induction s arbitrary: cur) auto

lemma str_split_no_sep: "\<not> contains d s \<Longrightarrow> str_split s d = [s]"
  by (simp add: str_split_def split_from_no_sep)

lemma str_index_None: "(str_index l c = None) = (c \<notin> set l)"
  by (induction l) auto

lemma parse_headers_no_colon:
  "list_ex (\<lambda>l. 58 \<notin> set l) lines \<Longrightarrow> parse_headers lines hs = Inl ValueError"
proof (induction lines arbitrary: hs)
  case Nil
  then show ?case by simp
next
  case (Cons l lines)
  show ?case
  proof (cases "str_index l 58")
    case None
    then show ?thesis by simp
  next
    case (Some idx)
    then have "58 \<in> set l" using str_index_None [of l 58] by auto
    with Cons.prems have "list_ex (\<lambda>l. 58 \<notin> set l) lines" by simp
    from Cons.IH [OF this] Some show ?thesis by simp
  qed
qed

lemma parseRequest_malformed:
  assumes "malformed reqstr"
  shows "parseRequest reqstr = Inl ValueError"
proof (cases "contains (sep @ sep) reqstr")
  case False
  then show ?thesis by (simp add: parseRequest_def str_split_no_sep)
next
  case True
  show ?thesis
  proof (cases "str_split reqstr (sep @ sep)")
    case Nil
    then show ?thesis by (simp add: parseRequest_def)
  next
    case outer: (Cons head rest)
    show ?thesis
    proof (cases "str_split head sep")
      case Nil
      with assms True outer show ?thesis by (simp add: malformed_def)
    next
      case inner: (Cons line lines)
      from assms True outer inner
      have m: "length (str_split line (ascii '' '')) \<noteq> 3 \<or> list_ex (\<lambda>l. 58 \<notin> set l) lines"
        by (simp add: malformed_def)
      show ?thesis
      proof (cases "length (str_split line (ascii '' '')) \<noteq> 3")
        case True
        then show ?thesis
          by (auto simp: parseRequest_def outer inner split: list.splits)
      next
        case False
        with m have "parse_headers lines Map.empty = Inl ValueError"
          by (simp add: parse_headers_no_colon)
        then show ?thesis
          by (auto simp: parseRequest_def outer inner split: list.splits)
      qed
    qed
  qed
qed

lemma loop_body_parse_error:
  assumes "decode (rstrip_nul data) = Inr reqstr" "parseRequest reqstr = Inl e"
  shows "loop_body lib srv addr data out w = (Raise e, out, w)"
  using assms by (simp add: loop_body_def)

text \<open>
  C1, as the code has it.  For every malformed request text (no blank-line separator,
  a first line that is not three fields, or a header line without a colon)
  \<open>__parseRequest\<close> raises \<open>ValueError\<close>.  \<open>__handleConnection\<close> does not catch it: for a
  buffer that decodes to such a text the worker ends with that \<open>ValueError\<close> unhandled;
  nothing is sent, no further buffer is read, and the connection is closed on the way
  out.
\<close>

theorem malformed_request_raises:
  assumes "malformed reqstr"
  shows "parseRequest reqstr = Inl ValueError
     \<and> (octets data \<noteq> [] \<and> decode (rstrip_nul data) = Inr reqstr \<longrightarrow>
          handleConnection lib srv \<lparr>inbox = data # rest, outbox = out, closed = cl\<rparr> addr w =
            (Raised ValueError, \<lparr>inbox = rest, outbox = out, closed = True\<rparr>, w))"
proof (intro conjI impI)
  show p: "parseRequest reqstr = Inl ValueError" by (rule parseRequest_malformed [OF assms])
  assume "octets data \<noteq> [] \<and> decode (rstrip_nul data) = Inr reqstr"
  then have d: "octets data \<noteq> []" and r: "decode (rstrip_nul data) = Inr reqstr" by blast+
  show "handleConnection lib srv \<lparr>inbox = data # rest, outbox = out, closed = cl\<rparr> addr w =
            (Raised ValueError, \<lparr>inbox = rest, outbox = out, closed = True\<rparr>, w)"
    by (simp add: handleConnection_one_pass [OF d] loop_body_parse_error [OF r p])
qed

lemma malformed_garbage: "malformed (ascii ''garbage'')"
  by (simp add: malformed_def ascii_def sep_def)

lemma malformed_short_verb_line: "malformed (ascii ''GET /'' @ sep @ sep)"
  by (simp add: malformed_def ascii_def sep_def str_split_def)

lemma malformed_header_without_colon:
  "malformed (ascii ''GET / HTTP/1.1'' @ sep @ ascii ''Host'' @ sep @ sep)"
  by (simp add: malformed_def ascii_def sep_def str_split_def)

theorem malformed_request_raises_witness:
  "malformed (ascii ''garbage'')
   \<and> octets demo_garbage \<noteq> [] \<and> decode (rstrip_nul demo_garbage) = Inr (ascii ''garbage'')
   \<and> handleConnection demo_lib demo_server \<lparr>inbox = [demo_garbage], outbox = [], closed = False\<rparr>
        demo_addr () = (Raised ValueError, \<lparr>inbox = [], outbox = [], closed = True\<rparr>, ())
   \<and> malformed (ascii ''GET /'' @ sep @ sep)
   \<and> parseRequest (ascii ''GET /'' @ sep @ sep) = Inl ValueError
   \<and> malformed (ascii ''GET / HTTP/1.1'' @ sep @ ascii ''Host'' @ sep @ sep)
   \<and> parseRequest (ascii ''GET / HTTP/1.1'' @ sep @ ascii ''Host'' @ sep @ sep) = Inl ValueError"
proof -
  have o: "octets demo_garbage \<noteq> []" by (simp add: demo_garbage_def ascii_def)
  have d: "decode (rstrip_nul demo_garbage) = Inr (ascii ''garbage'')"
    by (simp add: demo_garbage_def decode_def rstrip_nul_def ascii_def)
  from malformed_request_raises [OF malformed_garbage, where data = demo_garbage and lib = demo_lib
      and srv = demo_server and rest = "[]" and out = "[]" and cl = False and addr = demo_addr
      and w = "()"] o d
  have a: "handleConnection demo_lib demo_server \<lparr>inbox = [demo_garbage], outbox = [], closed = False\<rparr>
        demo_addr () = (Raised ValueError, \<lparr>inbox = [], outbox = [], closed = True\<rparr>, ())"
    by blast
  have b: "parseRequest (ascii ''GET /'' @ sep @ sep) = Inl ValueError"
    by (rule malformed_request_raises [OF malformed_short_verb_line, THEN conjunct1])
  have c: "parseRequest (ascii ''GET / HTTP/1.1'' @ sep @ ascii ''Host'' @ sep @ sep) = Inl ValueError"
    by (rule malformed_request_raises [OF malformed_header_without_colon, THEN conjunct1])
  from malformed_garbage o d a malformed_short_verb_line b malformed_header_without_colon c
  show ?thesis by blast
qed

text \<open>
  The claim as stated fails: the buffer \<open>b'garbage'\<close> is malformed and the worker ends
  with an unhandled \<open>ValueError\<close>, not with a return.
\<close>

theorem malformed_request_unhandled:
  "malformed (ascii ''garbage'')
   \<and> fst (handleConnection demo_lib demo_server
          \<lparr>inbox = [demo_garbage], outbox = [], closed = False\<rparr> demo_addr ()) = Raised ValueError
   \<and> fst (handleConnection demo_lib demo_server
          \<lparr>inbox = [demo_garbage], outbox = [], closed = False\<rparr> demo_addr ()) \<noteq> Returned"
proof -
  have "parseRequest (ascii ''garbage'') = Inl ValueError"
    by (simp add: parseRequest_def str_split_def ascii_def sep_def)
  moreover have "decode (rstrip_nul demo_garbage) = Inr (ascii ''garbage'')"
    by (simp add: demo_garbage_def decode_def rstrip_nul_def ascii_def)
  ultimately have "loop_body demo_lib demo_server demo_addr demo_garbage [] ()
      = (Raise ValueError, [], ())"
    by (simp add: loop_body_def)
  moreover have "octets demo_garbage \<noteq> []" by (simp add: demo_garbage_def ascii_def)
  ultimately have "fst (handleConnection demo_lib demo_server
          \<lparr>inbox = [demo_garbage], outbox = [], closed = False\<rparr> demo_addr ()) = Raised ValueError"
    by (simp add: handleConnection_def)
  with malformed_garbage show ?thesis by simp
qed

end
